theory Spec2Isabelle
  imports Complex_Main
begin

section \<open>Entity life cycle of bitECS (src/src/Entity.ts)\<close>

text \<open>
  The module keeps its state in module-level variables shared by all worlds and in
  symbol-keyed fields of each world object. The embedding passes that state explicitly:
  a record \<open>state\<close> for the module-level variables together with the heap of world
  objects, and a record \<open>World\<close> for the fields of one world.

  Numbers. Entity ids, the cursor and the two sizes are JavaScript numbers that only ever
  hold counts and array indices; they are \<open>nat\<close>. The reuse threshold is a fraction
  (\<open>0.01\<close>), and the two places that divide (\<open>globalSize / 5\<close>,
  \<open>size / 2 / 4\<close>) divide exactly, not by integer division; these computations are
  carried out in \<open>rat\<close>, with \<open>Math.ceil\<close> the ceiling and
  \<open>Math.round\<close> rounding to the nearest integer, halves upwards
  (\<open>round x = \<lfloor>x + 1/2\<rfloor>\<close>). The rounding error of IEEE doubles is not modelled.
\<close>

subsection \<open>Data\<close>

type_synonym eid = nat \<comment> \<open>entity id\<close>
type_synonym wid = nat \<comment> \<open>reference to a world object\<close>
type_synonym qid = nat \<comment> \<open>reference to a query object\<close>
type_synonym lid = nat \<comment> \<open>local (deserialization) entity id\<close>
type_synonym component = nat \<comment> \<open>reference to a component object\<close>

text \<open>
  Modelled from the spec: the fields of a world (\<open>Types.ts\<close> and \<open>World.ts\<close>
  are not part of the sources). The sparse set is a set of ids with \<open>add\<close>,
  \<open>remove\<close> and \<open>has\<close>; \<open>entityComponents\<close> is the \<open>Map\<close> from an id to its
  \<open>Set\<close> of components, kept in insertion order; each bitmask row is indexable by
  entity id; every registered query has a result set; \<open>localEntities\<close> and
  \<open>localEntityLookup\<close> are the two \<open>Map\<close>s of the deserializer.
\<close>

record World =
  entitySparseSet :: "eid set"
  entityComponents :: "eid \<rightharpoonup> component list"
  entityMasks :: "(eid \<Rightarrow> nat) list"
  queries :: "qid list"
  notQueries :: "qid list"
  queryEntities :: "qid \<Rightarrow> eid set"
  localEntities :: "lid \<rightharpoonup> eid"
  localEntityLookup :: "eid \<rightharpoonup> lid"

text \<open>
  The module-level variables of \<open>Entity.ts\<close> (lines 20 to 33 and 74), the heap of
  world objects, the flag of \<open>setSerializationResized\<close> and the notices written by
  \<open>console.info\<close> (old size, new size).
\<close>

record state =
  defaultSize :: nat
  globalEntityCursor :: nat
  globalSize :: nat
  removed :: "eid list"
  removedReuseThreshold :: rat
  eidToWorld :: "eid \<rightharpoonup> wid"
  worlds :: "wid \<Rightarrow> World"
  serializationResized :: bool
  notices :: "(nat \<times> nat) list"

definition defaultRemovedReuseThreshold :: rat where
  "defaultRemovedReuseThreshold = 1 / 100"

text \<open>
  Modelled from the spec: a world that holds no entity, no query and no bitmask row.
\<close>

definition emptyWorld :: World where
  "emptyWorld = \<lparr> entitySparseSet = {}, entityComponents = Map.empty, entityMasks = [],
     queries = [], notQueries = [], queryEntities = (\<lambda>_. {}),
     localEntities = Map.empty, localEntityLookup = Map.empty \<rparr>"

text \<open>The state of a freshly loaded module: lines 20, 24, 25, 31, 33 and 74.\<close>

definition initial :: state where
  "initial = \<lparr> defaultSize = 100000, globalEntityCursor = 0, globalSize = 100000,
     removed = [], removedReuseThreshold = defaultRemovedReuseThreshold,
     eidToWorld = Map.empty, worlds = (\<lambda>_. emptyWorld),
     serializationResized = False, notices = [] \<rparr>"

subsection \<open>Capacity\<close>

text \<open>Line 26: \<open>globalSize - globalSize / 5\<close>, an exact division.\<close>

definition resizeThreshold :: "state \<Rightarrow> rat" where
  "resizeThreshold s = of_nat (globalSize s) - of_nat (globalSize s) / 5"

definition resetGlobals :: "state \<Rightarrow> state" where
  "resetGlobals s =
     s\<lparr> globalSize := defaultSize s,
        globalEntityCursor := 0,
        removedReuseThreshold := defaultRemovedReuseThreshold,
        removed := [] \<rparr>"

text \<open>
  Modelled from the spec: \<open>resizeWorlds\<close> and \<open>resizeComponents\<close> (of
  \<open>World.ts\<close> and \<open>Component.ts\<close>) reallocate the stores of the collaborators to
  the new capacity. The fields of \<open>World\<close> above carry no capacity, so both leave
  the modelled state as it is.
\<close>

definition resizeWorlds :: "nat \<Rightarrow> state \<Rightarrow> state" where
  "resizeWorlds newSize s = s"

definition resizeComponents :: "nat \<Rightarrow> state \<Rightarrow> state" where
  "resizeComponents newSize s = s"

definition setSerializationResized :: "bool \<Rightarrow> state \<Rightarrow> state" where
  "setSerializationResized b s = s\<lparr> serializationResized := b \<rparr>"

definition setDefaultSize :: "nat \<Rightarrow> state \<Rightarrow> state" where
  "setDefaultSize newSize s =
     (let oldSize = globalSize s;
          s1 = s\<lparr> defaultSize := newSize \<rparr>;
          s2 = resetGlobals s1;
          s3 = s2\<lparr> globalSize := newSize \<rparr>;
          s4 = resizeWorlds newSize s3;
          s5 = resizeComponents newSize s4;
          s6 = setSerializationResized True s5
      in s6\<lparr> notices := notices s6 @ [(oldSize, newSize)] \<rparr>)"

definition setRemovedRecycleThreshold :: "rat \<Rightarrow> state \<Rightarrow> state" where
  "setRemovedRecycleThreshold newThreshold s = s\<lparr> removedReuseThreshold := newThreshold \<rparr>"

subsection \<open>Queries\<close>

text \<open>
  Modelled from the spec: \<open>queryAddEntity\<close> and \<open>queryRemoveEntity\<close> (of
  \<open>Query.ts\<close>) add an id to, and remove it from, the result set of one query.
  \<open>queryCheckEntity\<close>, the matching of an entity against a query, is a parameter
  \<open>chk\<close> of \<open>addEntity\<close>.
\<close>

definition queryAddEntity :: "World \<Rightarrow> qid \<Rightarrow> eid \<Rightarrow> World" where
  "queryAddEntity world q eid =
     world\<lparr> queryEntities := (queryEntities world)(q := insert eid (queryEntities world q)) \<rparr>"

definition queryRemoveEntity :: "World \<Rightarrow> qid \<Rightarrow> eid \<Rightarrow> World" where
  "queryRemoveEntity world q eid =
     world\<lparr> queryEntities := (queryEntities world)(q := queryEntities world q - {eid}) \<rparr>"

subsection \<open>addEntity\<close>

text \<open>
  Lines 81 to 86: when the cursor has reached the resize threshold, grow through
  \<open>setDefaultSize\<close>.
\<close>

definition growIfFull :: "state \<Rightarrow> state" where
  "growIfFull s =
     (if resizeThreshold s \<le> of_nat (globalEntityCursor s)
      then (let size = globalSize s;
                amount = nat \<lceil>(of_nat size :: rat) / 2 / 4\<rceil> * 4
            in setDefaultSize (size + amount) s)
      else s)"

text \<open>
  Lines 88 to 91: the id is the head of the pool when the pool is longer than
  \<open>Math.round(defaultSize * removedReuseThreshold)\<close>, and the cursor otherwise, which is
  then incremented. Two places where the model is not the source:
  \<^item> the product is the exact rational one, where the source rounds it to a double
    before \<open>Math.round\<close>. The two agree wherever the double product is exact, as at
    \<open>100000 * 0.01\<close> and \<open>150000 * 0.01\<close>, and both are non-negative under a
    non-negative threshold; the properties below use the product only there;
  \<^item> \<open>removed.shift()\<close> on an empty pool yields \<open>undefined\<close> (it can only be asked
    for under a negative threshold); the source goes on with \<open>undefined\<close> as the id,
    the model stops there with \<open>UndefinedId\<close>.
\<close>

datatype fault = UndefinedId

definition takeEid :: "state \<Rightarrow> fault + (state \<times> eid)" where
  "takeEid s =
     (if round (of_nat (defaultSize s) * removedReuseThreshold s) < int (length (removed s))
      then (case removed s of
              [] \<Rightarrow> Inl UndefinedId
            | e # rest \<Rightarrow> Inr (s\<lparr> removed := rest \<rparr>, e))
      else Inr (s\<lparr> globalEntityCursor := globalEntityCursor s + 1 \<rparr>, globalEntityCursor s))"

text \<open>Lines 96 to 99: the loop over the not-queries of the world.\<close>

fun notQueriesForEach :: "(World \<Rightarrow> qid \<Rightarrow> eid \<Rightarrow> bool) \<Rightarrow> World \<Rightarrow> eid \<Rightarrow> qid list \<Rightarrow> World" where
  "notQueriesForEach chk world eid [] = world"
| "notQueriesForEach chk world eid (q # qs) =
     notQueriesForEach chk (if chk world q eid then queryAddEntity world q eid else world) eid qs"

text \<open>Lines 93 to 103, on the world object \<open>w\<close> of the heap.\<close>

definition register :: "(World \<Rightarrow> qid \<Rightarrow> eid \<Rightarrow> bool) \<Rightarrow> state \<Rightarrow> wid \<Rightarrow> eid \<Rightarrow> state" where
  "register chk s w eid =
     (let world = worlds s w;
          world1 = world\<lparr> entitySparseSet := insert eid (entitySparseSet world) \<rparr>;
          s1 = s\<lparr> eidToWorld := (eidToWorld s)(eid \<mapsto> w) \<rparr>;
          world2 = notQueriesForEach chk world1 eid (notQueries world1);
          world3 = world2\<lparr> entityComponents := (entityComponents world2)(eid \<mapsto> []) \<rparr>
      in s1\<lparr> worlds := (worlds s1)(w := world3) \<rparr>)"

definition addEntity :: "(World \<Rightarrow> qid \<Rightarrow> eid \<Rightarrow> bool) \<Rightarrow> state \<Rightarrow> wid \<Rightarrow> fault + (state \<times> eid)" where
  "addEntity chk s w =
     (case takeEid (growIfFull s) of
        Inl f \<Rightarrow> Inl f
      | Inr (s1, eid) \<Rightarrow> Inr (register chk s1 w eid, eid))"

text \<open>A sequence of \<open>addEntity\<close> calls, one per world reference of the list.\<close>

fun addEntities :: "(World \<Rightarrow> qid \<Rightarrow> eid \<Rightarrow> bool) \<Rightarrow> state \<Rightarrow> wid list \<Rightarrow> fault + (state \<times> eid list)" where
  "addEntities chk s [] = Inr (s, [])"
| "addEntities chk s (w # ws) =
     (case addEntity chk s w of
        Inl f \<Rightarrow> Inl f
      | Inr (s1, e) \<Rightarrow>
          (case addEntities chk s1 ws of
             Inl f \<Rightarrow> Inl f
           | Inr (s2, es) \<Rightarrow> Inr (s2, e # es)))"

subsection \<open>removeEntity\<close>

text \<open>Lines 131 and 132: the loop that writes \<open>0\<close> at index \<open>eid\<close> of every row.\<close>

function clearMasks :: "nat \<Rightarrow> eid \<Rightarrow> (eid \<Rightarrow> nat) list \<Rightarrow> (eid \<Rightarrow> nat) list" where
  "clearMasks i eid masks =
     (if i < length masks
      then clearMasks (i + 1) eid (masks[i := (masks ! i)(eid := 0)])
      else masks)"
  by pat_completeness auto
termination
  by (relation "measure (\<lambda>(i, eid, masks). length masks - i)") auto

declare clearMasks.simps [simp del]

text \<open>
  Lines 109 to 133. \<open>Map.get\<close> of an absent key is \<open>undefined\<close>, and deleting the key
  \<open>undefined\<close> from \<open>localEntities\<close>, whose keys are numbers, changes nothing.
\<close>

definition removeEntity :: "state \<Rightarrow> wid \<Rightarrow> eid \<Rightarrow> state" where
  "removeEntity s w eid =
     (let world = worlds s w in
      if eid \<notin> entitySparseSet world then s
      else
        (let world1 = foldl (\<lambda>wd q. queryRemoveEntity wd q eid) world (queries world);
             s1 = s\<lparr> removed := removed s @ [eid] \<rparr>;
             world2 = world1\<lparr> entitySparseSet := entitySparseSet world1 - {eid} \<rparr>;
             world3 = world2\<lparr> entityComponents := (entityComponents world2)(eid := None) \<rparr>;
             world4 = world3\<lparr> localEntities :=
                        (case localEntityLookup world3 eid of
                           None \<Rightarrow> localEntities world3
                         | Some l \<Rightarrow> (localEntities world3)(l := None)) \<rparr>;
             world5 = world4\<lparr> localEntityLookup := (localEntityLookup world4)(eid := None) \<rparr>;
             world6 = world5\<lparr> entityMasks := clearMasks 0 eid (entityMasks world5) \<rparr>
         in s1\<lparr> worlds := (worlds s1)(w := world6) \<rparr>))"

text \<open>A sequence of \<open>removeEntity\<close> calls on one world, one per id of the list.\<close>

fun removeEntities :: "state \<Rightarrow> wid \<Rightarrow> eid list \<Rightarrow> state" where
  "removeEntities s w [] = s"
| "removeEntities s w (e # es) = removeEntities (removeEntity s w e) w es"

subsection \<open>getEntityComponents and entityExists\<close>

text \<open>
  The two errors thrown at lines 139 and 141, with their messages, and the
  \<open>TypeError\<close> of \<open>Array.from(undefined)\<close> at line 142, when the sparse set has an
  id that \<open>entityComponents\<close> lacks. The argument is \<open>None\<close> for \<open>undefined\<close>.
\<close>

datatype error = Error string | TypeError

definition InvalidEntity :: error where
  "InvalidEntity = Error ''bitECS - entity is undefined.''"

definition EntityNotFound :: error where
  "EntityNotFound = Error ''bitECS - entity does not exist in the world.''"

definition getEntityComponents :: "World \<Rightarrow> eid option \<Rightarrow> error + component list" where
  "getEntityComponents world eid =
     (case eid of
        None \<Rightarrow> Inl InvalidEntity
      | Some e \<Rightarrow>
          if e \<notin> entitySparseSet world then Inl EntityNotFound
          else (case entityComponents world e of
                  None \<Rightarrow> Inl TypeError
                | Some cs \<Rightarrow> Inr cs))"

text \<open>
  Lines 148 to 150: the body is a block whose only statement evaluates the membership
  and drops it; the function returns \<open>undefined\<close>, here \<open>None\<close>.
\<close>

definition entityExists :: "World \<Rightarrow> eid \<Rightarrow> bool option" where
  "entityExists world eid = (let _ = (eid \<in> entitySparseSet world) in None)"

subsection \<open>Well-formed worlds and a sample state\<close>

text \<open>
  Every live id of every world has an entry in \<open>entityComponents\<close>. The freshly
  loaded module satisfies this, and \<open>addEntity\<close> and \<open>removeEntity\<close> keep it.
\<close>

definition tagged :: "state \<Rightarrow> bool" where
  "tagged s = (\<forall>v e. e \<in> entitySparseSet (worlds s v) \<longrightarrow> entityComponents (worlds s v) e \<noteq> None)"

text \<open>
  A world with the two live entities 5 and 6, where 5 holds two components, has the local
  id 2 and a bit set in the second bitmask row; and a module state whose world 0 it is.
\<close>

definition liveWorld :: World where
  "liveWorld = emptyWorld\<lparr> entitySparseSet := {5, 6},
     entityComponents := [5 \<mapsto> [10, 11], 6 \<mapsto> []],
     entityMasks := [(\<lambda>_. 3), (\<lambda>_. 0)(5 := 1)],
     localEntities := [2 \<mapsto> 5],
     localEntityLookup := [5 \<mapsto> 2] \<rparr>"

definition liveState :: state where
  "liveState = initial\<lparr> globalEntityCursor := 7,
     eidToWorld := [5 \<mapsto> 0, 6 \<mapsto> 0],
     worlds := (worlds initial)(0 := liveWorld) \<rparr>"

text \<open>
  The freshly loaded module with the cursor at 80000, the resize threshold of the
  capacity 100000.
\<close>

definition fullState :: state where
  "fullState = initial\<lparr> globalEntityCursor := 80000 \<rparr>"

section \<open>Auxiliary facts\<close>

subsection \<open>removeEntity\<close>

lemma clearMasks_eq:
  "clearMasks i eid masks = take i masks @ map (\<lambda>row. row(eid := 0)) (drop i masks)"
proof (induction i eid masks rule: clearMasks.induct)
  case (1 i eid masks)
  show ?case
  proof (cases "i < length masks")
    case True
    have "clearMasks i eid masks = clearMasks (i + 1) eid (masks[i := (masks ! i)(eid := 0)])"
      using True by (subst clearMasks.simps) simp
    also have "\<dots> = take (i + 1) (masks[i := (masks ! i)(eid := 0)])
        @ map (\<lambda>row. row(eid := 0)) (drop (i + 1) (masks[i := (masks ! i)(eid := 0)]))"
      using "1.IH" [OF True] .
    also have "\<dots> = take i masks @ map (\<lambda>row. row(eid := 0)) (drop i masks)"
      using True
      by (simp add: take_Suc_conv_app_nth Cons_nth_drop_Suc [symmetric])
    finally show ?thesis .
  next
    case False
    then show ?thesis by (subst clearMasks.simps) simp
  qed
qed

lemma clearMasks_0: "clearMasks 0 eid masks = map (\<lambda>row. row(eid := 0)) masks"
  by (simp add: clearMasks_eq)

lemma foldl_queryRemoveEntity_fields:
  "entitySparseSet (foldl (\<lambda>wd q. queryRemoveEntity wd q eid) world qs) = entitySparseSet world"
  "entityComponents (foldl (\<lambda>wd q. queryRemoveEntity wd q eid) world qs) = entityComponents world"
  "entityMasks (foldl (\<lambda>wd q. queryRemoveEntity wd q eid) world qs) = entityMasks world"
  "localEntities (foldl (\<lambda>wd q. queryRemoveEntity wd q eid) world qs) = localEntities world"
  "localEntityLookup (foldl (\<lambda>wd q. queryRemoveEntity wd q eid) world qs) = localEntityLookup world"
  "queries (foldl (\<lambda>wd q. queryRemoveEntity wd q eid) world qs) = queries world"
  "notQueries (foldl (\<lambda>wd q. queryRemoveEntity wd q eid) world qs) = notQueries world"
  by (induction qs arbitrary: world; simp add: queryRemoveEntity_def)+

lemma removeEntity_live_world:
  assumes "eid \<in> entitySparseSet (worlds s w)"
  shows "entitySparseSet (worlds (removeEntity s w eid) w) = entitySparseSet (worlds s w) - {eid}"
    and "entityComponents (worlds (removeEntity s w eid) w) = (entityComponents (worlds s w))(eid := None)"
    and "localEntityLookup (worlds (removeEntity s w eid) w) = (localEntityLookup (worlds s w))(eid := None)"
    and "localEntities (worlds (removeEntity s w eid) w) =
          (case localEntityLookup (worlds s w) eid of None \<Rightarrow> localEntities (worlds s w)
           | Some l \<Rightarrow> (localEntities (worlds s w))(l := None))"
    and "entityMasks (worlds (removeEntity s w eid) w) = map (\<lambda>row. row(eid := 0)) (entityMasks (worlds s w))"
    and "removed (removeEntity s w eid) = removed s @ [eid]"
  using assms by (simp_all add: removeEntity_def Let_def foldl_queryRemoveEntity_fields clearMasks_0 split: option.splits)

lemma removeEntity_globals:
  "eidToWorld (removeEntity s w eid) = eidToWorld s"
  "globalEntityCursor (removeEntity s w eid) = globalEntityCursor s"
  "globalSize (removeEntity s w eid) = globalSize s"
  "defaultSize (removeEntity s w eid) = defaultSize s"
  "removedReuseThreshold (removeEntity s w eid) = removedReuseThreshold s"
  "w' \<noteq> w \<Longrightarrow> worlds (removeEntity s w eid) w' = worlds s w'"
  by (simp_all add: removeEntity_def Let_def)

lemma removeEntity_not_live: "eid \<notin> entitySparseSet (worlds s w) \<Longrightarrow> removeEntity s w eid = s"
  by (simp add: removeEntity_def)

lemma removeEntity_idem: "removeEntity (removeEntity s w eid) w eid = removeEntity s w eid"
proof (cases "eid \<in> entitySparseSet (worlds s w)")
  case True
  then have "eid \<notin> entitySparseSet (worlds (removeEntity s w eid) w)"
    by (simp add: removeEntity_live_world)
  then show ?thesis by (rule removeEntity_not_live)
next
  case False
  then show ?thesis by (simp add: removeEntity_not_live)
qed

lemma error_distinct: "InvalidEntity \<noteq> EntityNotFound" "InvalidEntity \<noteq> TypeError" "EntityNotFound \<noteq> TypeError"
  by (simp_all add: InvalidEntity_def EntityNotFound_def)

subsection \<open>Capacity and the choice of the id\<close>

lemma resizeThreshold_le_iff:
  "resizeThreshold s \<le> of_nat c \<longleftrightarrow> globalSize s - globalSize s div 5 \<le> c"
proof -
  let ?g = "globalSize s"
  have d: "?g div 5 \<le> ?g" by simp
  have "resizeThreshold s \<le> of_nat c \<longleftrightarrow> (of_nat ?g :: rat) - of_nat c \<le> of_nat ?g / of_nat 5"
    by (simp add: resizeThreshold_def algebra_simps)
  also have "\<dots> \<longleftrightarrow> (of_int (int ?g - int c) :: rat) \<le> of_nat ?g / of_nat 5"
    by simp
  also have "\<dots> \<longleftrightarrow> int ?g - int c \<le> \<lfloor>(of_nat ?g :: rat) / of_nat 5\<rfloor>"
    by (simp only: le_floor_iff)
  also have "\<dots> \<longleftrightarrow> int ?g - int c \<le> int (?g div 5)"
    by (simp only: floor_divide_of_nat_eq of_int_of_nat_eq)
  also have "\<dots> \<longleftrightarrow> ?g - ?g div 5 \<le> c"
    using d by linarith
  finally show ?thesis .
qed

lemma growIfFull_idle:
  "globalEntityCursor s < globalSize s - globalSize s div 5 \<Longrightarrow> growIfFull s = s"
  by (simp add: growIfFull_def resizeThreshold_le_iff)

lemma setDefaultSize_fields:
  "defaultSize (setDefaultSize n s) = n"
  "globalSize (setDefaultSize n s) = n"
  "globalEntityCursor (setDefaultSize n s) = 0"
  "removed (setDefaultSize n s) = []"
  "removedReuseThreshold (setDefaultSize n s) = defaultRemovedReuseThreshold"
  "eidToWorld (setDefaultSize n s) = eidToWorld s"
  "worlds (setDefaultSize n s) = worlds s"
  "serializationResized (setDefaultSize n s) = True"
  "notices (setDefaultSize n s) = notices s @ [(globalSize s, n)]"
  by (simp_all add: setDefaultSize_def resetGlobals_def resizeWorlds_def resizeComponents_def
      setSerializationResized_def Let_def)

lemma growIfFull_full:
  assumes "globalSize s - globalSize s div 5 \<le> globalEntityCursor s"
  shows "growIfFull s = setDefaultSize (globalSize s + nat \<lceil>(of_nat (globalSize s) :: rat) / 2 / 4\<rceil> * 4) s"
  using assms by (simp add: growIfFull_def resizeThreshold_le_iff Let_def)

lemma growIfFull_frame:
  "eidToWorld (growIfFull s) = eidToWorld s" "worlds (growIfFull s) = worlds s"
  by (simp_all add: growIfFull_def Let_def setDefaultSize_fields)

lemma notQueriesForEach_fields:
  "entitySparseSet (notQueriesForEach chk world eid qs) = entitySparseSet world"
  "entityComponents (notQueriesForEach chk world eid qs) = entityComponents world"
  "entityMasks (notQueriesForEach chk world eid qs) = entityMasks world"
  "localEntities (notQueriesForEach chk world eid qs) = localEntities world"
  "localEntityLookup (notQueriesForEach chk world eid qs) = localEntityLookup world"
  "queries (notQueriesForEach chk world eid qs) = queries world"
  "notQueries (notQueriesForEach chk world eid qs) = notQueries world"
  by (induction qs arbitrary: world; simp add: queryAddEntity_def)+

lemma register_fields:
  "defaultSize (register chk s w e) = defaultSize s"
  "globalSize (register chk s w e) = globalSize s"
  "globalEntityCursor (register chk s w e) = globalEntityCursor s"
  "removed (register chk s w e) = removed s"
  "removedReuseThreshold (register chk s w e) = removedReuseThreshold s"
  "notices (register chk s w e) = notices s"
  "serializationResized (register chk s w e) = serializationResized s"
  "eidToWorld (register chk s w e) = (eidToWorld s)(e \<mapsto> w)"
  "entitySparseSet (worlds (register chk s w e) w) = insert e (entitySparseSet (worlds s w))"
  "entityComponents (worlds (register chk s w e) w) = (entityComponents (worlds s w))(e \<mapsto> [])"
  "entityMasks (worlds (register chk s w e) w) = entityMasks (worlds s w)"
  "w' \<noteq> w \<Longrightarrow> worlds (register chk s w e) w' = worlds s w'"
  by (simp_all add: register_def Let_def notQueriesForEach_fields)

lemma round_nonneg: "0 \<le> x \<Longrightarrow> 0 \<le> round (x :: rat)"
  using round_mono [of 0 x] by simp

lemma takeEid_cursor:
  assumes "\<not> round (of_nat (defaultSize s) * removedReuseThreshold s) < int (length (removed s))"
  shows "takeEid s = Inr (s\<lparr> globalEntityCursor := globalEntityCursor s + 1 \<rparr>, globalEntityCursor s)"
  using assms by (simp add: takeEid_def)

lemma takeEid_fresh:
  assumes "removed s = []" "0 \<le> removedReuseThreshold s"
  shows "takeEid s = Inr (s\<lparr> globalEntityCursor := globalEntityCursor s + 1 \<rparr>, globalEntityCursor s)"
proof -
  have "0 \<le> round (of_nat (defaultSize s) * removedReuseThreshold s)"
    using assms(2) by (intro round_nonneg) simp
  then show ?thesis using assms(1) by (intro takeEid_cursor) simp
qed

lemma takeEid_total:
  assumes "0 \<le> removedReuseThreshold s"
  shows "\<exists>r. takeEid s = Inr r"
proof (cases "removed s")
  case Nil
  then show ?thesis using takeEid_fresh [OF Nil assms] by blast
next
  case (Cons e rest)
  then show ?thesis by (simp add: takeEid_def)
qed

subsection \<open>addEntity\<close>

lemma addEntity_idle:
  assumes "globalEntityCursor s < globalSize s - globalSize s div 5"
  shows "addEntity chk s w =
    (case takeEid s of Inl f \<Rightarrow> Inl f | Inr (s1, e) \<Rightarrow> Inr (register chk s1 w e, e))"
  by (simp add: addEntity_def growIfFull_idle [OF assms])

lemma addEntity_full:
  assumes "globalSize s - globalSize s div 5 \<le> globalEntityCursor s"
  shows "addEntity chk s w =
    Inr (register chk
          ((growIfFull s)\<lparr> globalEntityCursor := 1 \<rparr>) w 0, 0)"
proof -
  let ?t = "growIfFull s"
  have t: "?t = setDefaultSize (globalSize s + nat \<lceil>(of_nat (globalSize s) :: rat) / 2 / 4\<rceil> * 4) s"
    by (rule growIfFull_full [OF assms])
  have "removed ?t = []" "0 \<le> removedReuseThreshold ?t" "globalEntityCursor ?t = 0"
    by (simp_all add: t setDefaultSize_fields defaultRemovedReuseThreshold_def)
  then have "takeEid ?t = Inr (?t\<lparr> globalEntityCursor := 1 \<rparr>, 0)"
    using takeEid_fresh [of ?t] by simp
  then show ?thesis by (simp add: addEntity_def)
qed

lemma addEntity_fresh:
  assumes "globalEntityCursor s < globalSize s - globalSize s div 5"
    and "\<not> round (of_nat (defaultSize s) * removedReuseThreshold s) < int (length (removed s))"
  shows "addEntity chk s w =
    Inr (register chk (s\<lparr> globalEntityCursor := globalEntityCursor s + 1 \<rparr>) w (globalEntityCursor s),
         globalEntityCursor s)"
  by (simp add: addEntity_idle [OF assms(1)] takeEid_cursor [OF assms(2)])

lemma addEntities_append:
  "addEntities chk s (xs @ ys) =
    (case addEntities chk s xs of
       Inl f \<Rightarrow> Inl f
     | Inr (s1, es1) \<Rightarrow>
         (case addEntities chk s1 ys of
            Inl f \<Rightarrow> Inl f
          | Inr (s2, es2) \<Rightarrow> Inr (s2, es1 @ es2)))"
  by (induction xs arbitrary: s) (auto split: sum.splits)

text \<open>
  While no call grows and the pool is not above the reuse threshold, the ids are the
  consecutive values of the cursor.
\<close>

lemma addEntities_fresh_run:
  assumes "\<not> round (of_nat (defaultSize s) * removedReuseThreshold s) < int (length (removed s))"
    and "globalEntityCursor s + length ws \<le> globalSize s - globalSize s div 5"
  shows "\<exists>s'. addEntities chk s ws = Inr (s', [globalEntityCursor s ..< globalEntityCursor s + length ws])
     \<and> globalEntityCursor s' = globalEntityCursor s + length ws
     \<and> removed s' = removed s \<and> removedReuseThreshold s' = removedReuseThreshold s
     \<and> globalSize s' = globalSize s \<and> defaultSize s' = defaultSize s
     \<and> notices s' = notices s"
  using assms
proof (induction ws arbitrary: s)
  case Nil
  then show ?case by simp
next
  case (Cons w ws)
  let ?s1 = "register chk (s\<lparr> globalEntityCursor := globalEntityCursor s + 1 \<rparr>) w (globalEntityCursor s)"
  have lt: "globalEntityCursor s < globalSize s - globalSize s div 5"
    using Cons.prems(2) by simp
  have step: "addEntity chk s w = Inr (?s1, globalEntityCursor s)"
    by (rule addEntity_fresh [OF lt Cons.prems(1)])
  have "\<not> round (of_nat (defaultSize ?s1) * removedReuseThreshold ?s1) < int (length (removed ?s1))"
    "globalEntityCursor ?s1 + length ws \<le> globalSize ?s1 - globalSize ?s1 div 5"
    using Cons.prems by (simp_all add: register_fields)
  from Cons.IH [OF this] obtain s' where
    s': "addEntities chk ?s1 ws = Inr (s', [globalEntityCursor ?s1 ..< globalEntityCursor ?s1 + length ws])"
      "globalEntityCursor s' = globalEntityCursor ?s1 + length ws"
      "removed s' = removed ?s1" "removedReuseThreshold s' = removedReuseThreshold ?s1"
      "globalSize s' = globalSize ?s1" "defaultSize s' = defaultSize ?s1"
      "notices s' = notices ?s1"
    by blast
  have c1: "globalEntityCursor ?s1 = Suc (globalEntityCursor s)"
    by (simp add: register_fields)
  have run: "addEntities chk ?s1 ws =
      Inr (s', [Suc (globalEntityCursor s) ..< Suc (globalEntityCursor s) + length ws])"
    using s'(1) unfolding c1 .
  have "addEntities chk s (w # ws) =
      Inr (s', globalEntityCursor s # [Suc (globalEntityCursor s) ..< Suc (globalEntityCursor s) + length ws])"
    by (simp only: addEntities.simps step run sum.case prod.case)
  moreover have "globalEntityCursor s # [Suc (globalEntityCursor s) ..< Suc (globalEntityCursor s) + length ws]
      = [globalEntityCursor s ..< globalEntityCursor s + length (w # ws)]"
    by (simp add: upt_conv_Cons del: upt_Suc)
  moreover have "globalEntityCursor s' = globalEntityCursor s + length (w # ws)"
    using s'(2) by (simp add: register_fields)
  moreover have "removed s' = removed s" "removedReuseThreshold s' = removedReuseThreshold s"
    "globalSize s' = globalSize s" "defaultSize s' = defaultSize s" "notices s' = notices s"
    using s'(3-) by (simp_all add: register_fields)
  ultimately show ?case by (simp only: simp_thms exI [of _ s'])
qed

lemma addEntity_sparse_mono:
  assumes "addEntity chk s w = Inr (s', e)"
  shows "entitySparseSet (worlds s v) \<subseteq> entitySparseSet (worlds s' v)"
    and "e \<in> entitySparseSet (worlds s' w)"
    and "eidToWorld s' e = Some w"
proof -
  obtain s1 where t: "takeEid (growIfFull s) = Inr (s1, e)" and s': "s' = register chk s1 w e"
    using assms by (auto simp: addEntity_def split: sum.splits)
  have w1: "worlds s1 = worlds s"
    using t by (auto simp: takeEid_def growIfFull_frame split: if_splits list.splits)
  show "entitySparseSet (worlds s v) \<subseteq> entitySparseSet (worlds s' v)"
    by (cases "v = w") (auto simp: s' register_fields w1)
  show "e \<in> entitySparseSet (worlds s' w)" by (simp add: s' register_fields)
  show "eidToWorld s' e = Some w" by (simp add: s' register_fields)
qed

lemma addEntities_sparse_mono:
  "addEntities chk s ws = Inr (s', es) \<Longrightarrow> entitySparseSet (worlds s v) \<subseteq> entitySparseSet (worlds s' v)"
proof (induction ws arbitrary: s es)
  case Nil
  then show ?case by simp
next
  case (Cons w ws)
  then obtain s1 e es1 where a: "addEntity chk s w = Inr (s1, e)"
    and b: "addEntities chk s1 ws = Inr (s', es1)"
    by (auto split: sum.splits)
  show ?case using addEntity_sparse_mono(1) [OF a, of v] Cons.IH [OF b] by blast
qed

lemma addEntities_ids_live:
  "addEntities chk s ws = Inr (s', es) \<Longrightarrow>
     length es = length ws \<and> (\<forall>i < length ws. es ! i \<in> entitySparseSet (worlds s' (ws ! i)))"
proof (induction ws arbitrary: s es)
  case Nil
  then show ?case by simp
next
  case (Cons w ws)
  then obtain s1 e es1 where a: "addEntity chk s w = Inr (s1, e)"
    and b: "addEntities chk s1 ws = Inr (s', es1)" and es: "es = e # es1"
    by (auto split: sum.splits)
  have ih: "length es1 = length ws" "\<forall>i < length ws. es1 ! i \<in> entitySparseSet (worlds s' (ws ! i))"
    using Cons.IH [OF b] by simp_all
  have "e \<in> entitySparseSet (worlds s' w)"
    using addEntity_sparse_mono(2) [OF a] addEntities_sparse_mono [OF b, of w] by blast
  then show ?case using ih by (auto simp: es nth_Cons split: nat.splits)
qed

lemma removeEntities_run:
  assumes "distinct es" and "set es \<subseteq> entitySparseSet (worlds s w)"
  shows "removed (removeEntities s w es) = removed s @ es
     \<and> globalEntityCursor (removeEntities s w es) = globalEntityCursor s
     \<and> globalSize (removeEntities s w es) = globalSize s
     \<and> defaultSize (removeEntities s w es) = defaultSize s
     \<and> removedReuseThreshold (removeEntities s w es) = removedReuseThreshold s"
  using assms
proof (induction es arbitrary: s)
  case Nil
  then show ?case by simp
next
  case (Cons e es)
  have live: "e \<in> entitySparseSet (worlds s w)" using Cons.prems(2) by simp
  have "set es \<subseteq> entitySparseSet (worlds (removeEntity s w e) w)"
    using Cons.prems by (auto simp: removeEntity_live_world(1) [OF live])
  moreover have "distinct es" using Cons.prems(1) by simp
  ultimately show ?case
    using Cons.IH [of "removeEntity s w e"]
    by (simp add: removeEntity_live_world(6) [OF live] removeEntity_globals)
qed

lemma initial_run:
  "\<exists>s1. addEntities chk initial (replicate 80000 w) = Inr (s1, [0..<80000])
     \<and> globalEntityCursor s1 = 80000 \<and> removed s1 = []
     \<and> removedReuseThreshold s1 = 1 / 100
     \<and> globalSize s1 = 100000 \<and> defaultSize s1 = 100000 \<and> notices s1 = []"
proof -
  have "\<not> round (of_nat (defaultSize initial) * removedReuseThreshold initial)
        < int (length (removed initial))"
    "globalEntityCursor initial + length (replicate 80000 w)
       \<le> globalSize initial - globalSize initial div 5"
    by (simp_all add: initial_def defaultRemovedReuseThreshold_def)
  from addEntities_fresh_run [OF this, of chk]
  show ?thesis by (simp add: initial_def defaultRemovedReuseThreshold_def)
qed

lemma addEntity_total:
  assumes "0 \<le> removedReuseThreshold s"
  shows "\<exists>s' e. addEntity chk s w = Inr (s', e) \<and> 0 \<le> removedReuseThreshold s'"
proof (cases "globalSize s - globalSize s div 5 \<le> globalEntityCursor s")
  case True
  have "removedReuseThreshold (growIfFull s) = defaultRemovedReuseThreshold"
    unfolding growIfFull_full [OF True] by (rule setDefaultSize_fields)
  then show ?thesis
    by (simp add: addEntity_full [OF True] register_fields defaultRemovedReuseThreshold_def)
next
  case False
  then have idle: "globalEntityCursor s < globalSize s - globalSize s div 5" by simp
  obtain s1 e where t: "takeEid s = Inr (s1, e)"
    using takeEid_total [OF assms] by auto
  have "removedReuseThreshold s1 = removedReuseThreshold s"
    using t by (auto simp: takeEid_def split: if_splits list.splits)
  then show ?thesis
    using assms by (simp add: addEntity_idle [OF idle] t register_fields)
qed

lemma addEntities_total:
  "0 \<le> removedReuseThreshold s \<Longrightarrow>
     \<exists>s' es. addEntities chk s ws = Inr (s', es) \<and> 0 \<le> removedReuseThreshold s'"
proof (induction ws arbitrary: s)
  case Nil
  then show ?case by simp
next
  case (Cons w ws)
  obtain s1 e where a: "addEntity chk s w = Inr (s1, e)" and t: "0 \<le> removedReuseThreshold s1"
    using addEntity_total [OF Cons.prems] by blast
  obtain s' es where "addEntities chk s1 ws = Inr (s', es)" "0 \<le> removedReuseThreshold s'"
    using Cons.IH [OF t] by blast
  then show ?case using a by simp
qed

lemma takeEid_cases:
  assumes "takeEid s = Inr (s1, e)"
  shows "globalSize s1 = globalSize s \<and> notices s1 = notices s \<and>
    (globalEntityCursor s1 = globalEntityCursor s \<or> globalEntityCursor s1 = globalEntityCursor s + 1)"
  using assms by (auto simp: takeEid_def split: if_splits list.splits)

lemma addEntity_capacity:
  assumes "addEntity chk s w = Inr (s', e)"
  shows "if globalSize s - globalSize s div 5 \<le> globalEntityCursor s
         then int (globalSize s') = int (globalSize s) + \<lceil>(of_nat (globalSize s) :: rat) / 2 / 4\<rceil> * 4
              \<and> notices s' = notices s @ [(globalSize s, globalSize s')]
              \<and> e = 0 \<and> globalEntityCursor s' = 1
              \<and> s' = register chk ((setDefaultSize (globalSize s') s)\<lparr> globalEntityCursor := 1 \<rparr>) w 0
         else globalSize s' = globalSize s \<and> notices s' = notices s
              \<and> globalEntityCursor s' \<le> globalEntityCursor s + 1
              \<and> (\<exists>s1. takeEid s = Inr (s1, e) \<and> s' = register chk s1 w e)"
proof (cases "globalSize s - globalSize s div 5 \<le> globalEntityCursor s")
  case True
  let ?n = "globalSize s + nat \<lceil>(of_nat (globalSize s) :: rat) / 2 / 4\<rceil> * 4"
  have g: "growIfFull s = setDefaultSize ?n s"
    by (rule growIfFull_full [OF True])
  have s': "s' = register chk ((growIfFull s)\<lparr> globalEntityCursor := 1 \<rparr>) w 0" and e: "e = 0"
    using assms by (simp_all add: addEntity_full [OF True])
  have c: "0 \<le> \<lceil>(of_nat (globalSize s) :: rat) / 2 / 4\<rceil>"
    by simp
  have n: "globalSize s' = ?n"
    by (simp add: s' register_fields g setDefaultSize_fields)
  have "notices s' = notices s @ [(globalSize s, ?n)]" "globalEntityCursor s' = 1"
    by (simp_all add: s' register_fields g setDefaultSize_fields)
  moreover have "s' = register chk ((setDefaultSize (globalSize s') s)\<lparr> globalEntityCursor := 1 \<rparr>) w 0"
    unfolding n using s' unfolding g .
  ultimately show ?thesis using True c e n by simp
next
  case False
  then have idle: "globalEntityCursor s < globalSize s - globalSize s div 5" by simp
  obtain s1 where t: "takeEid s = Inr (s1, e)" and s': "s' = register chk s1 w e"
    using assms by (auto simp: addEntity_idle [OF idle] split: sum.splits)
  have "\<exists>s1. takeEid s = Inr (s1, e) \<and> s' = register chk s1 w e"
    using t s' by blast
  moreover have "globalSize s' = globalSize s \<and> notices s' = notices s
      \<and> globalEntityCursor s' \<le> globalEntityCursor s + 1"
    using takeEid_cases [OF t] by (auto simp: s' register_fields)
  ultimately show ?thesis using False by simp
qed

lemma addEntity_capacity_step:
  assumes "addEntity chk s w = Inr (s', e)"
  shows "globalSize s \<le> globalSize s'"
    and "0 < globalSize s \<Longrightarrow> globalEntityCursor s' \<le> globalSize s'"
proof -
  have "globalSize s \<le> globalSize s'
      \<and> (0 < globalSize s \<longrightarrow> globalEntityCursor s' \<le> globalSize s')"
  proof (cases "globalSize s - globalSize s div 5 \<le> globalEntityCursor s")
    case True
    then have "int (globalSize s') = int (globalSize s) + \<lceil>(of_nat (globalSize s) :: rat) / 2 / 4\<rceil> * 4"
      and "globalEntityCursor s' = 1"
      using addEntity_capacity [OF assms] by simp_all
    moreover have "0 \<le> \<lceil>(of_nat (globalSize s) :: rat) / 2 / 4\<rceil>" by simp
    ultimately show ?thesis by linarith
  next
    case False
    then have "globalSize s' = globalSize s" and "globalEntityCursor s' \<le> globalEntityCursor s + 1"
      using addEntity_capacity [OF assms] by simp_all
    then show ?thesis using False by linarith
  qed
  then show "globalSize s \<le> globalSize s'"
    and "0 < globalSize s \<Longrightarrow> globalEntityCursor s' \<le> globalSize s'"
    by simp_all
qed

lemma addEntities_capacity:
  "addEntities chk s ws = Inr (s', es) \<Longrightarrow> globalSize s \<le> globalSize s'"
proof (induction ws arbitrary: s es)
  case Nil
  then show ?case by simp
next
  case (Cons w ws)
  then obtain s1 e es1 where a: "addEntity chk s w = Inr (s1, e)"
    and b: "addEntities chk s1 ws = Inr (s', es1)"
    by (auto split: sum.splits)
  show ?case
    using addEntity_capacity_step(1) [OF a] Cons.IH [OF b] by simp
qed

lemma addEntity_idle_recycles:
  assumes "globalEntityCursor s < globalSize s - globalSize s div 5"
    and "round (of_nat (defaultSize s) * removedReuseThreshold s) < int (length (removed s))"
    and "removed s = e # rest"
  shows "\<exists>s'. addEntity chk s w = Inr (s', e) \<and> removed s' = rest
     \<and> globalEntityCursor s' = globalEntityCursor s"
  using assms(2,3) by (simp add: addEntity_idle [OF assms(1)] takeEid_def register_fields)

lemma addEntity_idle_fresh:
  assumes "globalEntityCursor s < globalSize s - globalSize s div 5"
    and "\<not> round (of_nat (defaultSize s) * removedReuseThreshold s) < int (length (removed s))"
  shows "\<exists>s'. addEntity chk s w = Inr (s', globalEntityCursor s) \<and> removed s' = removed s
     \<and> globalEntityCursor s' = globalEntityCursor s + 1"
  using assms(2) by (simp add: addEntity_idle [OF assms(1)] takeEid_def register_fields)

lemma tagged_initial: "tagged initial"
  by (simp add: tagged_def initial_def emptyWorld_def)

lemma tagged_addEntity:
  assumes "tagged s" and "addEntity chk s w = Inr (s', e)"
  shows "tagged s'"
proof -
  obtain s1 where t: "takeEid (growIfFull s) = Inr (s1, e)" and s': "s' = register chk s1 w e"
    using assms(2) by (auto simp: addEntity_def split: sum.splits)
  have w1: "worlds s1 = worlds s"
    using t by (auto simp: takeEid_def growIfFull_frame split: if_splits list.splits)
  show ?thesis
    unfolding tagged_def
  proof (intro allI impI)
    fix v x assume x: "x \<in> entitySparseSet (worlds s' v)"
    show "entityComponents (worlds s' v) x \<noteq> None"
    proof (cases "v = w")
      case True
      then show ?thesis using x assms(1) by (auto simp: s' register_fields w1 tagged_def)
    next
      case False
      then show ?thesis using x assms(1) by (simp add: s' register_fields w1 tagged_def)
    qed
  qed
qed

lemma tagged_removeEntity:
  assumes "tagged s"
  shows "tagged (removeEntity s w eid)"
proof (cases "eid \<in> entitySparseSet (worlds s w)")
  case True
  show ?thesis
    unfolding tagged_def
  proof (intro allI impI)
    fix v x assume x: "x \<in> entitySparseSet (worlds (removeEntity s w eid) v)"
    show "entityComponents (worlds (removeEntity s w eid) v) x \<noteq> None"
    proof (cases "v = w")
      case True
      then show ?thesis
        using x assms \<open>eid \<in> entitySparseSet (worlds s w)\<close>
        by (auto simp: removeEntity_live_world tagged_def)
    next
      case False
      then show ?thesis using x assms by (simp add: removeEntity_globals tagged_def)
    qed
  qed
next
  case False
  then show ?thesis using assms by (simp add: removeEntity_not_live)
qed

section \<open>Properties\<close>

subsection \<open>Ids of consecutive calls\<close>

text \<open>
  C1. The claim: in a sequence of \<open>addEntity\<close> calls with no removal in between, the ids
  returned are pairwise distinct and increasing until an id is first taken from the recycle
  pool. The source breaks it at the first growth: \<open>addEntity\<close> grows through
  \<open>setDefaultSize\<close>, which calls \<open>resetGlobals\<close> and so puts the cursor back
  to 0. On a freshly loaded module, 80001 calls on one world return 0, 1, ..., 79999 and
  then 0 again, with the pool empty throughout.
\<close>

theorem addEntity_repeats_id_after_growth:
  "\<exists>s'. addEntities chk initial (replicate 80000 w @ [w]) = Inr (s', [0..<80000] @ [0])
     \<and> removed s' = [] \<and> \<not> distinct ([0..<80000] @ [0 :: nat])"
proof -
  obtain s1 where run: "addEntities chk initial (replicate 80000 w) = Inr (s1, [0..<80000])"
    and s1: "globalEntityCursor s1 = 80000" "globalSize s1 = 100000"
    using initial_run [of chk w] by blast
  have full: "globalSize s1 - globalSize s1 div 5 \<le> globalEntityCursor s1"
    by (simp add: s1)
  let ?s2 = "register chk ((growIfFull s1)\<lparr> globalEntityCursor := 1 \<rparr>) w 0"
  have last: "addEntity chk s1 w = Inr (?s2, 0)"
    by (rule addEntity_full [OF full])
  have "addEntities chk initial (replicate 80000 w @ [w]) = Inr (?s2, [0..<80000] @ [0])"
    by (simp only: addEntities_append run last addEntities.simps sum.case prod.case)
  moreover have "removed ?s2 = []"
    by (simp add: register_fields growIfFull_full [OF full] setDefaultSize_fields)
  moreover have "\<not> distinct ([0..<80000] @ [0 :: nat])"
    by simp
  ultimately show ?thesis by blast
qed

subsection \<open>One world per live id\<close>

text \<open>
  C2. The claim: in every reachable state an id is live in at most one world, and
  \<open>eidToWorld\<close> maps a live id to that world. The source breaks it at the first
  growth, by the reset of the cursor: after 80000 calls of \<open>addEntity\<close> on world 0 and
  one call on world 1, the id 0 is in the sparse sets of both worlds, and \<open>eidToWorld\<close>
  maps it to world 1 only.
\<close>

theorem id_live_in_two_worlds_after_growth:
  "\<exists>s' ids. addEntities chk initial (replicate 80000 0 @ [1]) = Inr (s', ids)
     \<and> 0 \<in> entitySparseSet (worlds s' 0) \<and> 0 \<in> entitySparseSet (worlds s' 1)
     \<and> eidToWorld s' 0 = Some 1"
proof -
  obtain s1 where run: "addEntities chk initial (replicate 80000 0) = Inr (s1, [0..<80000])"
    and s1: "globalEntityCursor s1 = 80000" "globalSize s1 = 100000"
    using initial_run [of chk 0] by blast
  have "[0..<80000] ! 0 \<in> entitySparseSet (worlds s1 (replicate 80000 0 ! 0))"
    using addEntities_ids_live [OF run] by simp
  then have live0: "0 \<in> entitySparseSet (worlds s1 0)"
    by simp
  have full: "globalSize s1 - globalSize s1 div 5 \<le> globalEntityCursor s1"
    by (simp add: s1)
  let ?s2 = "register chk ((growIfFull s1)\<lparr> globalEntityCursor := 1 \<rparr>) 1 0"
  have last: "addEntity chk s1 1 = Inr (?s2, 0)"
    by (rule addEntity_full [OF full])
  have "addEntities chk initial (replicate 80000 0 @ [1]) = Inr (?s2, [0..<80000] @ [0])"
    by (simp only: addEntities_append run last addEntities.simps sum.case prod.case)
  moreover have "0 \<in> entitySparseSet (worlds ?s2 0)"
    using addEntity_sparse_mono(1) [OF last, of 0] live0 by blast
  moreover have "0 \<in> entitySparseSet (worlds ?s2 1)"
    by (rule addEntity_sparse_mono(2) [OF last])
  moreover have "eidToWorld ?s2 0 = Some 1"
    by (rule addEntity_sparse_mono(3) [OF last])
  ultimately show ?thesis by blast
qed

subsection \<open>Recycling\<close>

text \<open>
  C3. The claim: \<open>addEntity\<close> returns the oldest id of the recycle pool exactly when the
  pool is longer than \<open>round(defaultSize * removedReuseThreshold)\<close>, and the cursor
  otherwise; with threshold 0.01 and default size 100000, after 1500 removals the next call
  returns the id removed first. On a call that does not grow the source does so (lemmas
  \<open>addEntity_idle_recycles\<close> and \<open>addEntity_idle_fresh\<close>). On a call that grows,
  \<open>resetGlobals\<close> empties the pool before the id is chosen: after 80000 calls of
  \<open>addEntity\<close> and the removal of the ids 1 to 1500, the pool holds 1500 ids, more than
  \<open>round(100000 * 0.01) = 1000\<close>, and the next \<open>addEntity\<close> returns 0, not 1, and
  leaves the pool empty.
\<close>

theorem growth_discards_recycle_pool:
  "\<exists>s1 s2 s3. addEntities chk initial (replicate 80000 w) = Inr (s1, [0..<80000])
     \<and> s2 = removeEntities s1 w [1..<1501]
     \<and> removed s2 = [1..<1501] \<and> hd (removed s2) = 1
     \<and> defaultSize s2 = 100000 \<and> removedReuseThreshold s2 = 1 / 100
     \<and> round (of_nat (defaultSize s2) * removedReuseThreshold s2) < int (length (removed s2))
     \<and> addEntity chk s2 w = Inr (s3, 0)
     \<and> removed s3 = []"
proof -
  obtain s1 where run: "addEntities chk initial (replicate 80000 w) = Inr (s1, [0..<80000])"
    and s1: "globalEntityCursor s1 = 80000" "globalSize s1 = 100000" "removed s1 = []"
      "removedReuseThreshold s1 = 1 / 100" "defaultSize s1 = 100000"
    using initial_run [of chk w] by blast
  have live: "set [1..<1501] \<subseteq> entitySparseSet (worlds s1 w)"
  proof
    fix e assume "e \<in> set [1..<1501]"
    then have e: "e < 80000" by simp
    then have "[0..<80000] ! e \<in> entitySparseSet (worlds s1 (replicate 80000 w ! e))"
      using addEntities_ids_live [OF run] by simp
    then show "e \<in> entitySparseSet (worlds s1 w)"
      using e by simp
  qed
  let ?s2 = "removeEntities s1 w [1..<1501]"
  have s2: "removed ?s2 = [1..<1501]" "globalEntityCursor ?s2 = 80000" "globalSize ?s2 = 100000"
    "defaultSize ?s2 = 100000" "removedReuseThreshold ?s2 = 1 / 100"
    using removeEntities_run [OF distinct_upt live] by (simp_all only: s1 append_Nil)
  have over: "round (of_nat (defaultSize ?s2) * removedReuseThreshold ?s2) < int (length (removed ?s2))"
    unfolding s2 by simp
  have full: "globalSize ?s2 - globalSize ?s2 div 5 \<le> globalEntityCursor ?s2"
    unfolding s2 by simp
  let ?s3 = "register chk ((growIfFull ?s2)\<lparr> globalEntityCursor := 1 \<rparr>) w 0"
  have last: "addEntity chk ?s2 w = Inr (?s3, 0)"
    by (rule addEntity_full [OF full])
  have "removed (growIfFull ?s2) = []"
    unfolding growIfFull_full [OF full] by (rule setDefaultSize_fields)
  then have "removed ?s3 = []"
    by (simp add: register_fields)
  moreover have "hd (removed ?s2) = 1"
    unfolding s2 by (simp add: hd_upt)
  ultimately show ?thesis using run s2 over last by blast
qed

subsection \<open>Growth\<close>

text \<open>
  C4. \<open>addEntity\<close> grows the capacity exactly when the cursor is at least
  \<open>globalSize - globalSize div 5\<close>: it then writes the notice of \<open>setDefaultSize\<close>
  and the capacity becomes \<open>globalSize + \<lceil>globalSize / 2 / 4\<rceil> * 4\<close>; otherwise
  capacity and notices stay as they are. The growth comes before the id is assigned: on a
  call that grows, the id is the one chosen in the grown state (the cursor of that state,
  0, which then moves to 1) and it is registered in the grown state; on a call that does
  not grow, the id is the one chosen in the state of the call. A call that grows always
  returns, and every call returns when the reuse threshold is not negative. From the
  freshly loaded module, 80000 calls leave the capacity at 100000 with no notice, and the
  80001st call grows it to \<open>150000\<close>, which is at least
  \<open>100000 + \<lceil>50000 / 4\<rceil> * 4\<close>, and then assigns its id in the grown state.
\<close>

theorem addEntity_grows_at_threshold:
  "(0 \<le> removedReuseThreshold s \<longrightarrow> (\<exists>s' e. addEntity chk s w = Inr (s', e)))
   \<and> (\<forall>s' e. addEntity chk s w = Inr (s', e) \<longrightarrow>
         (if globalSize s - globalSize s div 5 \<le> globalEntityCursor s
          then int (globalSize s') = int (globalSize s) + \<lceil>(of_nat (globalSize s) :: rat) / 2 / 4\<rceil> * 4
               \<and> notices s' = notices s @ [(globalSize s, globalSize s')]
               \<and> e = globalEntityCursor (setDefaultSize (globalSize s') s)
               \<and> e = 0 \<and> globalEntityCursor s' = 1
               \<and> s' = register chk ((setDefaultSize (globalSize s') s)\<lparr> globalEntityCursor := 1 \<rparr>) w e
          else globalSize s' = globalSize s \<and> notices s' = notices s
               \<and> (\<exists>s1. takeEid s = Inr (s1, e) \<and> s' = register chk s1 w e)))
   \<and> (globalSize s - globalSize s div 5 \<le> globalEntityCursor s \<longrightarrow>
         (\<exists>s' e. addEntity chk s w = Inr (s', e)))
   \<and> (\<exists>s1 ids s2 e.
         addEntities chk initial (replicate 80000 w) = Inr (s1, ids)
         \<and> globalEntityCursor s1 = 80000 \<and> globalSize s1 = 100000 \<and> notices s1 = []
         \<and> addEntity chk s1 w = Inr (s2, e)
         \<and> 100000 + \<lceil>(50000 :: rat) / 4\<rceil> * 4 \<le> int (globalSize s2)
         \<and> notices s2 = [(100000, globalSize s2)]
         \<and> globalSize s2 = 150000
         \<and> e = 0 \<and> globalEntityCursor s2 = 1
         \<and> s2 = register chk ((setDefaultSize 150000 s1)\<lparr> globalEntityCursor := 1 \<rparr>) w 0)"
proof (intro conjI)
  show "0 \<le> removedReuseThreshold s \<longrightarrow> (\<exists>s' e. addEntity chk s w = Inr (s', e))"
    using addEntity_total by blast
next
  have "if globalSize s - globalSize s div 5 \<le> globalEntityCursor s
        then int (globalSize s') = int (globalSize s) + \<lceil>(of_nat (globalSize s) :: rat) / 2 / 4\<rceil> * 4
             \<and> notices s' = notices s @ [(globalSize s, globalSize s')]
             \<and> e = globalEntityCursor (setDefaultSize (globalSize s') s)
             \<and> e = 0 \<and> globalEntityCursor s' = 1
             \<and> s' = register chk ((setDefaultSize (globalSize s') s)\<lparr> globalEntityCursor := 1 \<rparr>) w e
        else globalSize s' = globalSize s \<and> notices s' = notices s
             \<and> (\<exists>s1. takeEid s = Inr (s1, e) \<and> s' = register chk s1 w e)"
    if a: "addEntity chk s w = Inr (s', e)" for s' e
  proof (cases "globalSize s - globalSize s div 5 \<le> globalEntityCursor s")
    case True
    then have c: "int (globalSize s') = int (globalSize s) + \<lceil>(of_nat (globalSize s) :: rat) / 2 / 4\<rceil> * 4"
      "notices s' = notices s @ [(globalSize s, globalSize s')]"
      "e = 0" "globalEntityCursor s' = 1"
      "s' = register chk ((setDefaultSize (globalSize s') s)\<lparr> globalEntityCursor := 1 \<rparr>) w 0"
      using addEntity_capacity [OF a] by simp_all
    have "e = globalEntityCursor (setDefaultSize (globalSize s') s)"
      by (simp add: c(3) setDefaultSize_fields)
    moreover have "s' = register chk ((setDefaultSize (globalSize s') s)\<lparr> globalEntityCursor := 1 \<rparr>) w e"
      using c(5) unfolding c(3) .
    ultimately show ?thesis using True c(1-4) by simp
  next
    case False
    then show ?thesis using addEntity_capacity [OF a] by simp
  qed
  then show "\<forall>s' e. addEntity chk s w = Inr (s', e) \<longrightarrow>
         (if globalSize s - globalSize s div 5 \<le> globalEntityCursor s
          then int (globalSize s') = int (globalSize s) + \<lceil>(of_nat (globalSize s) :: rat) / 2 / 4\<rceil> * 4
               \<and> notices s' = notices s @ [(globalSize s, globalSize s')]
               \<and> e = globalEntityCursor (setDefaultSize (globalSize s') s)
               \<and> e = 0 \<and> globalEntityCursor s' = 1
               \<and> s' = register chk ((setDefaultSize (globalSize s') s)\<lparr> globalEntityCursor := 1 \<rparr>) w e
          else globalSize s' = globalSize s \<and> notices s' = notices s
               \<and> (\<exists>s1. takeEid s = Inr (s1, e) \<and> s' = register chk s1 w e))"
    by blast
next
  show "globalSize s - globalSize s div 5 \<le> globalEntityCursor s \<longrightarrow>
      (\<exists>s' e. addEntity chk s w = Inr (s', e))"
    using addEntity_full by blast
next
  obtain s1 where run: "addEntities chk initial (replicate 80000 w) = Inr (s1, [0..<80000])"
    and s1: "globalEntityCursor s1 = 80000" "globalSize s1 = 100000" "notices s1 = []"
      "removedReuseThreshold s1 = 1 / 100"
    using initial_run [of chk w] by blast
  have full: "globalSize s1 - globalSize s1 div 5 \<le> globalEntityCursor s1"
    by (simp add: s1)
  obtain s2 e where last: "addEntity chk s1 w = Inr (s2, e)"
    using addEntity_full [OF full] by blast
  have c: "int (globalSize s2) = int (globalSize s1) + \<lceil>(of_nat (globalSize s1) :: rat) / 2 / 4\<rceil> * 4"
    "notices s2 = notices s1 @ [(globalSize s1, globalSize s2)]"
    "e = 0" "globalEntityCursor s2 = 1"
    "s2 = register chk ((setDefaultSize (globalSize s2) s1)\<lparr> globalEntityCursor := 1 \<rparr>) w 0"
    using addEntity_capacity [OF last] full by simp_all
  have "int (globalSize s2) = 150000"
    using c(1) by (simp add: s1)
  then have n: "globalSize s2 = 150000"
    by simp
  have "100000 + \<lceil>(50000 :: rat) / 4\<rceil> * 4 \<le> int (globalSize s2)"
    by (simp add: n)
  moreover have "notices s2 = [(100000, globalSize s2)]"
    using c(2) by (simp add: s1)
  moreover have "s2 = register chk ((setDefaultSize 150000 s1)\<lparr> globalEntityCursor := 1 \<rparr>) w 0"
    using c(5) unfolding n .
  ultimately show "\<exists>s1 ids s2 e.
         addEntities chk initial (replicate 80000 w) = Inr (s1, ids)
         \<and> globalEntityCursor s1 = 80000 \<and> globalSize s1 = 100000 \<and> notices s1 = []
         \<and> addEntity chk s1 w = Inr (s2, e)
         \<and> 100000 + \<lceil>(50000 :: rat) / 4\<rceil> * 4 \<le> int (globalSize s2)
         \<and> notices s2 = [(100000, globalSize s2)]
         \<and> globalSize s2 = 150000
         \<and> e = 0 \<and> globalEntityCursor s2 = 1
         \<and> s2 = register chk ((setDefaultSize 150000 s1)\<lparr> globalEntityCursor := 1 \<rparr>) w 0"
    using run s1 last n c(3,4) by blast
qed

theorem addEntity_grows_at_threshold_witness:
  "0 \<le> removedReuseThreshold initial
   \<and> (\<exists>s' e. addEntity (\<lambda>_ _ _. False) initial 0 = Inr (s', e)
         \<and> globalSize s' = 100000 \<and> notices s' = [])
   \<and> globalSize fullState - globalSize fullState div 5 \<le> globalEntityCursor fullState
   \<and> (\<exists>s' e. addEntity (\<lambda>_ _ _. False) fullState 0 = Inr (s', e)
         \<and> globalSize s' = 150000 \<and> notices s' = [(100000, 150000)]
         \<and> e = 0 \<and> globalEntityCursor s' = 1)"
proof -
  have t: "0 \<le> removedReuseThreshold initial"
    by (simp add: initial_def defaultRemovedReuseThreshold_def)
  note th = addEntity_grows_at_threshold [where s = initial and chk = "\<lambda>_ _ _. False" and w = 0]
  from th t obtain s' e where a: "addEntity (\<lambda>_ _ _. False) initial 0 = Inr (s', e)"
    by blast
  with th have "if globalSize initial - globalSize initial div 5 \<le> globalEntityCursor initial
      then int (globalSize s') = int (globalSize initial) + \<lceil>(of_nat (globalSize initial) :: rat) / 2 / 4\<rceil> * 4
           \<and> notices s' = notices initial @ [(globalSize initial, globalSize s')]
           \<and> e = globalEntityCursor (setDefaultSize (globalSize s') initial)
           \<and> e = 0 \<and> globalEntityCursor s' = 1
           \<and> s' = register (\<lambda>_ _ _. False)
                  ((setDefaultSize (globalSize s') initial)\<lparr> globalEntityCursor := 1 \<rparr>) 0 e
      else globalSize s' = globalSize initial \<and> notices s' = notices initial
           \<and> (\<exists>s1. takeEid initial = Inr (s1, e) \<and> s' = register (\<lambda>_ _ _. False) s1 0 e)"
    by blast
  then have idle: "globalSize s' = 100000 \<and> notices s' = []"
    by (simp add: initial_def)
  have f: "globalSize fullState = 100000" "globalEntityCursor fullState = 80000"
    "notices fullState = []"
    by (simp_all add: fullState_def initial_def)
  have full: "globalSize fullState - globalSize fullState div 5 \<le> globalEntityCursor fullState"
    by (simp add: f)
  note th2 = addEntity_grows_at_threshold [where s = fullState and chk = "\<lambda>_ _ _. False" and w = 0]
  from th2 full obtain s2 e2 where b: "addEntity (\<lambda>_ _ _. False) fullState 0 = Inr (s2, e2)"
    by blast
  with th2 have "if globalSize fullState - globalSize fullState div 5 \<le> globalEntityCursor fullState
      then int (globalSize s2) = int (globalSize fullState) + \<lceil>(of_nat (globalSize fullState) :: rat) / 2 / 4\<rceil> * 4
           \<and> notices s2 = notices fullState @ [(globalSize fullState, globalSize s2)]
           \<and> e2 = globalEntityCursor (setDefaultSize (globalSize s2) fullState)
           \<and> e2 = 0 \<and> globalEntityCursor s2 = 1
           \<and> s2 = register (\<lambda>_ _ _. False)
                  ((setDefaultSize (globalSize s2) fullState)\<lparr> globalEntityCursor := 1 \<rparr>) 0 e2
      else globalSize s2 = globalSize fullState \<and> notices s2 = notices fullState
           \<and> (\<exists>s1. takeEid fullState = Inr (s1, e2) \<and> s2 = register (\<lambda>_ _ _. False) s1 0 e2)"
    by blast
  with full have g: "int (globalSize s2) = int (globalSize fullState) + \<lceil>(of_nat (globalSize fullState) :: rat) / 2 / 4\<rceil> * 4"
    "notices s2 = notices fullState @ [(globalSize fullState, globalSize s2)]"
    "e2 = 0" "globalEntityCursor s2 = 1"
    by simp_all
  have "int (globalSize s2) = 150000"
    using g(1) by (simp add: f)
  then have n: "globalSize s2 = 150000"
    by simp
  have "notices s2 = [(100000, 150000)]"
    using g(2) by (simp add: f n)
  with t a idle full b n g(3,4) show ?thesis by blast
qed

subsection \<open>Capacity and cursor\<close>

text \<open>
  C5. The claim: over every sequence of \<open>addEntity\<close> calls the capacity never drops,
  and after every call the cursor is at most the capacity. The second half fails at
  capacity 0 (shown after the witness); the source has no case for a capacity that the
  growth by half cannot enlarge. As amended: for every sequence of
  \<open>addEntity\<close> calls, on any worlds, followed by one more call, the capacity does not
  drop over the sequence nor over the last call, and, when the capacity at the start is
  positive, the cursor is at most the capacity when the last call returns. The calls
  return whenever the reuse threshold is not negative.
\<close>

theorem capacity_never_shrinks:
  "(0 \<le> removedReuseThreshold s \<longrightarrow>
      (\<exists>s1 es s2 e. addEntities chk s ws = Inr (s1, es) \<and> addEntity chk s1 w = Inr (s2, e)))
   \<and> (\<forall>s1 es s2 e. addEntities chk s ws = Inr (s1, es) \<and> addEntity chk s1 w = Inr (s2, e) \<longrightarrow>
         globalSize s \<le> globalSize s1 \<and> globalSize s1 \<le> globalSize s2
         \<and> (0 < globalSize s \<longrightarrow> globalEntityCursor s2 \<le> globalSize s2))"
proof (rule conjI)
  show "0 \<le> removedReuseThreshold s \<longrightarrow>
      (\<exists>s1 es s2 e. addEntities chk s ws = Inr (s1, es) \<and> addEntity chk s1 w = Inr (s2, e))"
  proof
    assume "0 \<le> removedReuseThreshold s"
    then obtain s1 es where a: "addEntities chk s ws = Inr (s1, es)" and "0 \<le> removedReuseThreshold s1"
      using addEntities_total by blast
    then show "\<exists>s1 es s2 e. addEntities chk s ws = Inr (s1, es) \<and> addEntity chk s1 w = Inr (s2, e)"
      using addEntity_total [of s1 chk w] by blast
  qed
next
  have "globalSize s \<le> globalSize s1 \<and> globalSize s1 \<le> globalSize s2
      \<and> (0 < globalSize s \<longrightarrow> globalEntityCursor s2 \<le> globalSize s2)"
    if a: "addEntities chk s ws = Inr (s1, es)" and b: "addEntity chk s1 w = Inr (s2, e)"
    for s1 es s2 e
  proof -
    have le: "globalSize s \<le> globalSize s1"
      by (rule addEntities_capacity [OF a])
    have "globalEntityCursor s2 \<le> globalSize s2" if "0 < globalSize s"
    proof -
      from that le have "0 < globalSize s1" by simp
      then show ?thesis by (rule addEntity_capacity_step(2) [OF b])
    qed
    with le addEntity_capacity_step(1) [OF b] show ?thesis by simp
  qed
  then show "\<forall>s1 es s2 e. addEntities chk s ws = Inr (s1, es) \<and> addEntity chk s1 w = Inr (s2, e) \<longrightarrow>
      globalSize s \<le> globalSize s1 \<and> globalSize s1 \<le> globalSize s2
      \<and> (0 < globalSize s \<longrightarrow> globalEntityCursor s2 \<le> globalSize s2)"
    by blast
qed

theorem capacity_never_shrinks_witness:
  "0 < globalSize initial \<and> 0 \<le> removedReuseThreshold initial
   \<and> (\<exists>s1 es s2 e. addEntities (\<lambda>_ _ _. False) initial [0, 1] = Inr (s1, es)
         \<and> addEntity (\<lambda>_ _ _. False) s1 0 = Inr (s2, e)
         \<and> globalSize initial \<le> globalSize s1 \<and> globalSize s1 \<le> globalSize s2
         \<and> globalEntityCursor s2 \<le> globalSize s2)"
proof -
  have g: "0 < globalSize initial" and t: "0 \<le> removedReuseThreshold initial"
    by (simp_all add: initial_def defaultRemovedReuseThreshold_def)
  note th = capacity_never_shrinks [where s = initial and chk = "\<lambda>_ _ _. False" and ws = "[0, 1]" and w = 0]
  from th t obtain s1 es s2 e where
    a: "addEntities (\<lambda>_ _ _. False) initial [0, 1] = Inr (s1, es)
        \<and> addEntity (\<lambda>_ _ _. False) s1 0 = Inr (s2, e)"
    by blast
  with th g have "globalSize initial \<le> globalSize s1 \<and> globalSize s1 \<le> globalSize s2
      \<and> globalEntityCursor s2 \<le> globalSize s2"
    by blast
  with g t a show ?thesis by blast
qed

text \<open>
  C5, the claim as stated. It fails after \<open>setDefaultSize(0)\<close> on the freshly loaded module:
  the cursor 0 has reached the threshold \<open>0 - 0 / 5\<close>, the growth adds
  \<open>\<lceil>0 / 2 / 4\<rceil> * 4 = 0\<close>, and the call leaves the cursor at 1 over a capacity
  of 0.
\<close>

theorem cursor_exceeds_zero_capacity:
  "\<exists>s' e. addEntity (\<lambda>_ _ _. False) (setDefaultSize 0 initial) 0 = Inr (s', e)
     \<and> globalSize (setDefaultSize 0 initial) = 0
     \<and> e = 0 \<and> globalSize s' = 0 \<and> globalEntityCursor s' = 1
     \<and> \<not> globalEntityCursor s' \<le> globalSize s'"
proof -
  let ?s0 = "setDefaultSize 0 initial"
  have z: "globalSize ?s0 = 0" "globalEntityCursor ?s0 = 0"
    by (simp_all add: setDefaultSize_fields)
  have full: "globalSize ?s0 - globalSize ?s0 div 5 \<le> globalEntityCursor ?s0"
    by (simp add: z)
  obtain s' e where a: "addEntity (\<lambda>_ _ _. False) ?s0 0 = Inr (s', e)"
    using addEntity_full [OF full] by blast
  have c: "int (globalSize s') = int (globalSize ?s0) + \<lceil>(of_nat (globalSize ?s0) :: rat) / 2 / 4\<rceil> * 4"
    "e = 0" "globalEntityCursor s' = 1"
    using addEntity_capacity [OF a] full by simp_all
  have "globalSize s' = 0"
    using c(1) by (simp add: z)
  with a z c(2,3) show ?thesis by auto
qed

subsection \<open>Removal\<close>

text \<open>
  C6. For an id that is live in the world, \<open>removeEntity\<close> appends the id to the recycle
  pool, takes it out of the sparse set and out of \<open>entityComponents\<close>, deletes its entry
  of \<open>localEntityLookup\<close> and the entry of \<open>localEntities\<close> under its local id, and
  leaves every bitmask row of the world with 0 at the id, the number of rows unchanged.
\<close>

theorem removeEntity_purges_entity:
  assumes "eid \<in> entitySparseSet (worlds s w)"
  shows "removed (removeEntity s w eid) = removed s @ [eid]
     \<and> entitySparseSet (worlds (removeEntity s w eid) w) = entitySparseSet (worlds s w) - {eid}
     \<and> entityComponents (worlds (removeEntity s w eid) w) = (entityComponents (worlds s w))(eid := None)
     \<and> localEntityLookup (worlds (removeEntity s w eid) w) = (localEntityLookup (worlds s w))(eid := None)
     \<and> (\<forall>l. localEntityLookup (worlds s w) eid = Some l \<longrightarrow>
            localEntities (worlds (removeEntity s w eid) w) = (localEntities (worlds s w))(l := None))
     \<and> length (entityMasks (worlds (removeEntity s w eid) w)) = length (entityMasks (worlds s w))
     \<and> (\<forall>row \<in> set (entityMasks (worlds (removeEntity s w eid) w)). row eid = 0)"
  by (simp add: removeEntity_live_world [OF assms])

theorem removeEntity_purges_entity_witness:
  "5 \<in> entitySparseSet (worlds liveState 0)
   \<and> removed (removeEntity liveState 0 5) = [5]
   \<and> entitySparseSet (worlds (removeEntity liveState 0 5) 0) = {6}
   \<and> entityComponents (worlds (removeEntity liveState 0 5) 0) 5 = None
   \<and> localEntityLookup (worlds (removeEntity liveState 0 5) 0) 5 = None
   \<and> localEntities (worlds (removeEntity liveState 0 5) 0) 2 = None
   \<and> map (\<lambda>row. row 5) (entityMasks (worlds (removeEntity liveState 0 5) 0)) = [0, 0]"
proof -
  let ?w = "worlds liveState 0" and ?w' = "worlds (removeEntity liveState 0 5) 0"
  have live: "5 \<in> entitySparseSet ?w"
    by (simp add: liveState_def liveWorld_def)
  note th = removeEntity_purges_entity [OF live]
  have pre: "removed liveState = []" "entitySparseSet ?w = {5, 6}"
    "localEntityLookup ?w 5 = Some 2" "length (entityMasks ?w) = 2"
    by (simp_all add: liveState_def liveWorld_def initial_def)
  have "removed (removeEntity liveState 0 5) = [5]"
    using th pre by simp
  moreover have "entitySparseSet ?w' = {6}"
    using th pre by auto
  moreover have "entityComponents ?w' 5 = None" "localEntityLookup ?w' 5 = None"
    using th by simp_all
  moreover have "localEntities ?w' 2 = None"
    using th pre by simp
  moreover have "map (\<lambda>row. row 5) (entityMasks ?w') = [0, 0]"
  proof -
    have "\<forall>y \<in> set (map (\<lambda>row. row 5) (entityMasks ?w')). y = 0"
      using th by simp
    then have "replicate (length (map (\<lambda>row. row 5) (entityMasks ?w'))) 0
        = map (\<lambda>row. row 5) (entityMasks ?w')"
      by (rule replicate_length_same)
    moreover have "length (map (\<lambda>row. row 5) (entityMasks ?w')) = 2"
      using th pre by simp
    ultimately show ?thesis by (simp add: numeral_2_eq_2)
  qed
  ultimately show ?thesis using live by blast
qed

subsection \<open>Removal of an id that is not live\<close>

text \<open>
  C7. \<open>removeEntity\<close> on an id that is not live in the world returns the state
  unchanged (the model has no error to return, as the source has none to throw); calling
  it twice in a row gives the same state as calling it once.
\<close>

theorem removeEntity_idempotent:
  "(eid \<notin> entitySparseSet (worlds s w) \<longrightarrow> removeEntity s w eid = s)
   \<and> removeEntity (removeEntity s w eid) w eid = removeEntity s w eid"
  by (simp add: removeEntity_not_live removeEntity_idem)

theorem removeEntity_idempotent_witness:
  "9 \<notin> entitySparseSet (worlds liveState 0)
   \<and> removeEntity liveState 0 9 = liveState
   \<and> removeEntity (removeEntity liveState 0 5) 0 5 = removeEntity liveState 0 5"
proof -
  have "9 \<notin> entitySparseSet (worlds liveState 0)"
    by (simp add: liveState_def liveWorld_def)
  then show ?thesis
    using removeEntity_idempotent [of 9 liveState 0] removeEntity_idempotent [of 5 liveState 0]
    by blast
qed

subsection \<open>Components of an entity\<close>

text \<open>
  C8. \<open>getEntityComponents\<close> fails with the first error exactly when the id is
  \<open>undefined\<close>, with the second exactly when the id is defined and not in the sparse
  set, and for a live id it returns the components that \<open>entityComponents\<close> holds for
  it, in their order. (\<open>tagged\<close> states that every live id has such an entry.)
\<close>

theorem getEntityComponents_errors:
  "(getEntityComponents world eid = Inl InvalidEntity \<longleftrightarrow> eid = None)
   \<and> (getEntityComponents world eid = Inl EntityNotFound \<longleftrightarrow>
        (\<exists>e. eid = Some e \<and> e \<notin> entitySparseSet world))
   \<and> (\<forall>e cs. eid = Some e \<and> e \<in> entitySparseSet world \<and> entityComponents world e = Some cs \<longrightarrow>
        getEntityComponents world eid = Inr cs)"
  by (auto simp: getEntityComponents_def error_distinct error_distinct [symmetric] split: option.splits)

theorem getEntityComponents_errors_witness:
  "getEntityComponents liveWorld None = Inl InvalidEntity
   \<and> 9 \<notin> entitySparseSet liveWorld
   \<and> getEntityComponents liveWorld (Some 9) = Inl EntityNotFound
   \<and> 5 \<in> entitySparseSet liveWorld \<and> entityComponents liveWorld 5 = Some [10, 11]
   \<and> getEntityComponents liveWorld (Some 5) = Inr [10, 11]"
proof -
  have a: "9 \<notin> entitySparseSet liveWorld" "5 \<in> entitySparseSet liveWorld"
    "entityComponents liveWorld 5 = Some [10, 11]"
    by (simp_all add: liveWorld_def)
  show ?thesis
    using a getEntityComponents_errors [of liveWorld None]
      getEntityComponents_errors [of liveWorld "Some 9"]
      getEntityComponents_errors [of liveWorld "Some 5"]
    by simp
qed

subsection \<open>Existence check\<close>

text \<open>
  C9. The claim: \<open>entityExists(world, id)\<close> returns a boolean, true exactly when the id
  is in the sparse set of the world. The source returns \<open>undefined\<close> for every world
  and id, also for a live id.
\<close>

theorem entityExists_undefined:
  "entityExists world eid = None \<and>
   entityExists (emptyWorld\<lparr> entitySparseSet := {0} \<rparr>) 0 \<noteq> Some True"
  by (simp add: entityExists_def)

subsection \<open>The map from ids to worlds\<close>

text \<open>
  C10. \<open>removeEntity\<close> leaves \<open>eidToWorld\<close> as it is: no entry is deleted or
  changed. An id that was live in the world and mapped to it is no longer live afterwards
  and is still mapped to that world.
\<close>

theorem removeEntity_keeps_eidToWorld:
  "eidToWorld (removeEntity s w eid) = eidToWorld s
   \<and> (eid \<in> entitySparseSet (worlds s w) \<and> eidToWorld s eid = Some w \<longrightarrow>
        eid \<notin> entitySparseSet (worlds (removeEntity s w eid) w)
        \<and> eidToWorld (removeEntity s w eid) eid = Some w)"
  by (simp add: removeEntity_globals removeEntity_live_world)

theorem removeEntity_keeps_eidToWorld_witness:
  "5 \<in> entitySparseSet (worlds liveState 0) \<and> eidToWorld liveState 5 = Some 0
   \<and> 5 \<notin> entitySparseSet (worlds (removeEntity liveState 0 5) 0)
   \<and> eidToWorld (removeEntity liveState 0 5) 5 = Some 0
   \<and> eidToWorld (removeEntity liveState 0 5) 6 = Some 0"
proof -
  have a: "5 \<in> entitySparseSet (worlds liveState 0)" "eidToWorld liveState 5 = Some 0"
    "eidToWorld liveState 6 = Some 0"
    by (simp_all add: liveState_def liveWorld_def)
  show ?thesis
    using a removeEntity_keeps_eidToWorld [of liveState 0 5] by simp
qed

end
